theory Spec2Isabelle
  imports Main "HOL-Library.Char_ord" "HOL-Library.List_Lexorder"
    "HOL-Library.Product_Lexorder"
begin

section \<open>Shared types (buckytools.go)\<close>

text \<open>
  \<^verbatim>\<open>JSONRingType\<close> is what a node daemon reports about the hash ring: its own name
  and the ring members as \<^verbatim>\<open>"server:instance"\<close> strings (\<^verbatim>\<open>":instance"\<close> optional).
  The Go slices of pointers to it are modelled as lists of records (no nil elements).
\<close>

record JSONRingType =
  Name :: string
  Nodes :: "string list"

section \<open>Process failures\<close>

text \<open>
  The locate command has no error results: it ends the process. \<^verbatim>\<open>log.Fatal\<close> prints
  its message on standard error and calls \<^verbatim>\<open>os.Exit(1)\<close>; a run-time panic prints
  the panic on standard error and the Go run time exits with status 2. Both are values
  of \<open>failure\<close> here, and every function that can end the process returns
  \<open>failure + 'a\<close>. The diagnostic is the line written on standard error, without
  the date and time that the standard logger puts before it.
\<close>

datatype failure =
    Fatal string
  | IndexOutOfRange
  | EmptyRingError

definition ClusterInconsistentError :: failure where
  "ClusterInconsistentError =
     Fatal ''Cluster is inconsistent. Use the servers command to investigate.''"

fun exit_status :: "failure \<Rightarrow> nat" where
  "exit_status (Fatal msg) = 1"
| "exit_status IndexOutOfRange = 2"
| "exit_status EmptyRingError = 2"

fun diagnostic :: "failure \<Rightarrow> string" where
  "diagnostic (Fatal msg) = msg @ [CHR 0x0A]"
| "diagnostic IndexOutOfRange = ''panic: runtime error: index out of range'' @ [CHR 0x0A]"
| "diagnostic EmptyRingError = ''panic: EmptyRingError'' @ [CHR 0x0A]"

section \<open>The hashing package\<close>

text \<open>
  Modelled from the spec: the package \<^verbatim>\<open>hashing\<close> (\<^verbatim>\<open>Node\<close>, \<^verbatim>\<open>NewNode\<close>,
  \<^verbatim>\<open>HashRing\<close>, \<^verbatim>\<open>NewHashRing\<close>, \<^verbatim>\<open>AddNode\<close>, \<^verbatim>\<open>GetNode\<close>) is imported by the locate
  command and is not among the sources. The spec gives a node as host and optional
  instance; the ring as an ordered structure of hash positions, each bound to a node,
  the same for the same node set whatever the order of construction; \<^verbatim>\<open>AddNode\<close> as
  inserting the node's hash position(s), a duplicate node being a no-op; \<^verbatim>\<open>GetNode\<close>
  as hashing the key and returning the node bound to the first position at or after
  that hash, wrapping to the smallest position, and failing with \<^verbatim>\<open>EmptyRingError\<close>
  on a ring without nodes.

  The hash functions themselves are parameters: \<open>keyPosition\<close> places a metric key,
  \<open>nodePositions\<close> gives the position(s) of a node. A ring is the ascending list of
  its entries (position, host, instance) without repetition; entries at one position
  are ordered by host and instance, so the ring does not depend on the order of the
  insertions. The locate command passes the empty string as the instance of a node
  that has none, and the call \<^verbatim>\<open>hr.GetNode(key).Server\<close> has no error result to look
  at: the failure of \<^verbatim>\<open>GetNode\<close> ends the process.
\<close>

record Node =
  Server :: string
  Instance :: string

record hashfn =
  keyPosition :: "string \<Rightarrow> nat"
  nodePositions :: "Node \<Rightarrow> nat list"

type_synonym HashRing = "(nat \<times> string \<times> string) list"

text \<open>
  Modelled from the spec: \<^verbatim>\<open>hashing.NewNode\<close> (absent), the node of a host and an
  instance.
\<close>

definition NewNode :: "string \<Rightarrow> string \<Rightarrow> Node" where
  "NewNode server instance = \<lparr>Server = server, Instance = instance\<rparr>"

text \<open>Modelled from the spec: \<^verbatim>\<open>hashing.NewHashRing\<close> (absent), the ring without nodes.\<close>

definition NewHashRing :: HashRing where
  "NewHashRing = []"

text \<open>
  Modelled from the spec: \<^verbatim>\<open>HashRing.AddNode\<close> (absent) inserts the node's hash
  position(s) into the ring; for a node that is already there it is a no-op.
\<close>

definition AddNode :: "hashfn \<Rightarrow> HashRing \<Rightarrow> Node \<Rightarrow> HashRing" where
  "AddNode hf hr node =
     fold (\<lambda>p ring. insort_insert (p, Server node, Instance node) ring)
       (nodePositions hf node) hr"

text \<open>
  Modelled from the spec: \<^verbatim>\<open>HashRing.GetNode\<close> (absent) hashes the key, finds the first
  ring position at or after that hash, wrapping to the smallest position past the
  maximum, and returns the node bound to it; it fails with \<^verbatim>\<open>EmptyRingError\<close> when no
  node has been added.
\<close>

definition GetNode :: "hashfn \<Rightarrow> HashRing \<Rightarrow> string \<Rightarrow> failure + Node" where
  "GetNode hf hr key =
     (case hr of
        [] \<Rightarrow> Inl EmptyRingError
      | (p0, server0, instance0) # _ \<Rightarrow>
          (case find (\<lambda>e. keyPosition hf key \<le> fst e) hr of
             Some (p, server, instance) \<Rightarrow> Inr (NewNode server instance)
           | None \<Rightarrow> Inr (NewNode server0 instance0)))"

text \<open>The ring entries of a node: one for each of its positions.\<close>

definition entries :: "hashfn \<Rightarrow> Node \<Rightarrow> (nat \<times> string \<times> string) set" where
  "entries hf node = (\<lambda>p. (p, Server node, Instance node)) ` set (nodePositions hf node)"

section \<open>Cluster health\<close>

text \<open>
  Modelled from the spec: \<^verbatim>\<open>IsHealthy\<close> is called by \<^verbatim>\<open>LocateSliceMetrics\<close> and is not
  among the sources. The spec: true iff at least one view was retrieved and every
  retrieved view's node set equals every other's, compared as sets. The argument is
  the slice that \<^verbatim>\<open>GetRings()\<close> returned: the views that were retrieved. The model
  compares every further view with the first one.
\<close>

definition IsHealthy :: "JSONRingType list \<Rightarrow> bool" where
  "IsHealthy rings =
     (case rings of
        [] \<Rightarrow> False
      | r # rest \<Rightarrow> list_all (\<lambda>v. set (Nodes v) = set (Nodes r)) rest)"

section \<open>The locate command (cmd/bucky, locate)\<close>

text \<open>
  \<^verbatim>\<open>strings.Split(s, sep)\<close> of the Go library for a separator of one byte: the
  fields between the separators, one more than there are separators.
\<close>

fun Split :: "string \<Rightarrow> char \<Rightarrow> string list" where
  "Split [] sep = [[]]"
| "Split (c # cs) sep =
     (if c = sep then [] # Split cs sep
      else (case Split cs sep of
              [] \<Rightarrow> [[c]]
            | f # fs \<Rightarrow> (c # f) # fs))"

text \<open>
  \<^verbatim>\<open>buildHashRing\<close>: the loop over \<^verbatim>\<open>rings[0].Nodes\<close>, then the function. Indexing an
  empty \<^verbatim>\<open>rings\<close> panics.
\<close>

fun buildHashRing_loop :: "hashfn \<Rightarrow> string list \<Rightarrow> HashRing \<Rightarrow> HashRing" where
  "buildHashRing_loop hf [] hr = hr"
| "buildHashRing_loop hf (n # ns) hr =
     (let fields = Split n (CHR '':'') in
      if length fields < 2
      then buildHashRing_loop hf ns (AddNode hf hr (NewNode (fields ! 0) ''''))
      else buildHashRing_loop hf ns (AddNode hf hr (NewNode (fields ! 0) (fields ! 1))))"

definition buildHashRing :: "hashfn \<Rightarrow> JSONRingType list \<Rightarrow> failure + HashRing" where
  "buildHashRing hf rings =
     (case rings of
        [] \<Rightarrow> Inl IndexOutOfRange
      | r # _ \<Rightarrow> Inr (buildHashRing_loop hf (Nodes r) NewHashRing))"

text \<open>
  \<^verbatim>\<open>LocateSliceMetrics\<close>. \<open>rings\<close> is the value of the call \<^verbatim>\<open>GetRings()\<close>, which is
  not among the sources. The loop stores \<^verbatim>\<open>hr.GetNode(key).Server\<close> under \<^verbatim>\<open>key\<close> in
  the result map.
\<close>

fun LocateSliceMetrics_loop ::
  "hashfn \<Rightarrow> HashRing \<Rightarrow> string list \<Rightarrow> (string \<rightharpoonup> string) \<Rightarrow> failure + (string \<rightharpoonup> string)" where
  "LocateSliceMetrics_loop hf hr [] result = Inr result"
| "LocateSliceMetrics_loop hf hr (key # keys) result =
     (case GetNode hf hr key of
        Inl e \<Rightarrow> Inl e
      | Inr node \<Rightarrow> LocateSliceMetrics_loop hf hr keys (result(key \<mapsto> Server node)))"

definition LocateSliceMetrics ::
  "hashfn \<Rightarrow> JSONRingType list \<Rightarrow> string list \<Rightarrow> failure + (string \<rightharpoonup> string)" where
  "LocateSliceMetrics hf rings metrics =
     (if \<not> IsHealthy rings then Inl ClusterInconsistentError
      else (case buildHashRing hf rings of
              Inl e \<Rightarrow> Inl e
            | Inr hr \<Rightarrow> LocateSliceMetrics_loop hf hr metrics Map.empty))"

text \<open>
  An \<^verbatim>\<open>io.Reader\<close> is the bytes it delivers and the error, if any, that ends the
  delivery; \<^verbatim>\<open>ioutil.ReadAll\<close> returns both (no error at end of file).
\<close>

record Reader =
  delivered :: string
  read_error :: "string option"

definition ReadAll :: "Reader \<Rightarrow> string \<times> string option" where
  "ReadAll fd = (delivered fd, read_error fd)"

text \<open>
  \<^verbatim>\<open>LocateJSONMetrics\<close>. \<open>Unmarshal\<close> is \<^verbatim>\<open>json.Unmarshal\<close> into a slice of strings:
  the error text or the decoded slice. The variable \<^verbatim>\<open>err\<close> of the read is
  overwritten by the one of the decoding before any use. \<^verbatim>\<open>log.Fatal\<close> prints its
  operands as \<^verbatim>\<open>fmt.Sprint\<close> does: the format string as it is, then the error.
\<close>

definition LocateJSONMetrics ::
  "hashfn \<Rightarrow> (string \<Rightarrow> string + string list) \<Rightarrow> JSONRingType list \<Rightarrow> Reader
     \<Rightarrow> failure + (string \<rightharpoonup> string)" where
  "LocateJSONMetrics hf Unmarshal rings fd =
     (case ReadAll fd of
        (blob, err) \<Rightarrow>
          (case Unmarshal blob of
             Inl err \<Rightarrow> Inl (Fatal (''Error unmarshalling JSON data: %s'' @ err))
           | Inr metrics \<Rightarrow> LocateSliceMetrics hf rings metrics))"

text \<open>
  \<^verbatim>\<open>locateCommand\<close>. The surroundings of the process are a record: the hash functions,
  the value of \<^verbatim>\<open>GetRings()\<close>, the JSON library, the order in which Go ranges over a
  map, the flag \<^verbatim>\<open>JSONOutput\<close> and standard input. The outcome says how the command
  ended, what it wrote on standard output and standard error, and whether it read
  standard input. \<open>die\<close> is the outcome of a failure; \<open>print_list\<close> is the second
  half of \<^verbatim>\<open>locateCommand\<close>, which prints the mapping as JSON or as lines
  \<^verbatim>\<open>key => host\<close> and returns 0.
\<close>

record world =
  hashing :: hashfn
  GetRings :: "JSONRingType list"
  Unmarshal :: "string \<Rightarrow> string + string list"
  Marshal :: "(string \<rightharpoonup> string) \<Rightarrow> string + string"
  RangeOrder :: "(string \<rightharpoonup> string) \<Rightarrow> (string \<times> string) list"
  JSONOutput :: bool
  Stdin :: Reader

datatype completion = Returned int | Exited nat

record outcome =
  completion :: completion
  stdout :: string
  stderr :: string
  stdin_read :: bool

definition die :: "failure \<Rightarrow> bool \<Rightarrow> outcome" where
  "die f rd =
     \<lparr>completion = Exited (exit_status f), stdout = [], stderr = diagnostic f,
      stdin_read = rd\<rparr>"

definition print_list :: "world \<Rightarrow> (string \<rightharpoonup> string) \<Rightarrow> bool \<Rightarrow> outcome" where
  "print_list w list rd =
     (if JSONOutput w
      then (case Marshal w list of
              Inl err \<Rightarrow>
                \<lparr>completion = Returned 0, stdout = [], stderr = err @ [CHR 0x0A],
                 stdin_read = rd\<rparr>
            | Inr blob \<Rightarrow>
                \<lparr>completion = Returned 0, stdout = blob @ [CHR 0x0A], stderr = [],
                 stdin_read = rd\<rparr>)
      else \<lparr>completion = Returned 0,
            stdout = concat (map (\<lambda>(k, v). k @ '' => '' @ v @ [CHR 0x0A]) (RangeOrder w list)),
            stderr = [], stdin_read = rd\<rparr>)"

definition locateCommand :: "world \<Rightarrow> string list \<Rightarrow> outcome" where
  "locateCommand w args =
     (if length args = 0 then die (Fatal ''At least one argument is required.'') False
      else if args ! 0 \<noteq> ''-''
      then (case LocateSliceMetrics (hashing w) (GetRings w) args of
              Inl f \<Rightarrow> die f False
            | Inr list \<Rightarrow> print_list w list False)
      else (case LocateJSONMetrics (hashing w) (Unmarshal w) (GetRings w) (Stdin w) of
              Inl f \<Rightarrow> die f True
            | Inr list \<Rightarrow> print_list w list True))"

text \<open>
  The spec's reading of a node identifier \<^verbatim>\<open>host[:instance]\<close>, to compare with what
  the loop of \<^verbatim>\<open>buildHashRing\<close> does: the host is the text before the first colon,
  the instance the text after it (up to a further colon), empty when there is no colon.
\<close>

definition identifier_node :: "string \<Rightarrow> Node" where
  "identifier_node s =
     NewNode (takeWhile (\<lambda>c. c \<noteq> CHR '':'') s)
       (takeWhile (\<lambda>c. c \<noteq> CHR '':'') (drop 1 (dropWhile (\<lambda>c. c \<noteq> CHR '':'') s)))"

section \<open>Metric files of a node (REST API \<^verbatim>\<open>/metrics/<metric.key>\<close>)\<close>

text \<open>
  Modelled from the spec: the node daemon that serves \<^verbatim>\<open>PUT\<close> and \<^verbatim>\<open>POST\<close> on
  \<^verbatim>\<open>/metrics/<metric.key>\<close> (\<^verbatim>\<open>PutMetricFile\<close>, \<^verbatim>\<open>BackfillMetricFile\<close>) is not among
  the sources; only the description of its REST interface is. The spec: Put is a full
  overwrite that creates what is missing; Backfill merges into the backend, existing
  populated slots are preserved, only gap slots are filled from the supplied content,
  and an absent metric is created fresh (equivalent to Put). The file format is opaque
  in the spec, so the content of a metric file is the value of each of its time slots,
  \<open>None\<close> for a gap (the null data point of the API description); the content
  supplied is a well-formed file.
\<close>

type_synonym 'v points = "int \<rightharpoonup> 'v"

type_synonym 'v backend = "string \<rightharpoonup> 'v points"

text \<open>
  Modelled from the spec: \<^verbatim>\<open>PutMetricFile\<close> (absent), the full overwrite of the metric's
  content, creating the metric when it is missing.
\<close>

definition PutMetricFile :: "'v backend \<Rightarrow> string \<Rightarrow> 'v points \<Rightarrow> 'v backend" where
  "PutMetricFile store key content = store(key \<mapsto> content)"

text \<open>
  Modelled from the spec: the merge of one time slot by \<^verbatim>\<open>BackfillMetricFile\<close> (absent),
  a populated slot is preserved and a gap is filled from the supplied content.
\<close>

definition fill_slot :: "'v option \<Rightarrow> 'v option \<Rightarrow> 'v option" where
  "fill_slot on_disk supplied = (case on_disk of None \<Rightarrow> supplied | Some v \<Rightarrow> Some v)"

text \<open>
  Modelled from the spec: \<^verbatim>\<open>BackfillMetricFile\<close> (absent) merges the supplied content
  into the metric slot by slot; an absent metric is created fresh, as by Put.
\<close>

definition BackfillMetricFile :: "'v backend \<Rightarrow> string \<Rightarrow> 'v points \<Rightarrow> 'v backend" where
  "BackfillMetricFile store key content =
     (case store key of
        None \<Rightarrow> PutMetricFile store key content
      | Some on_disk \<Rightarrow> store(key \<mapsto> (\<lambda>slot. fill_slot (on_disk slot) (content slot))))"

section \<open>Example surroundings\<close>

text \<open>
  Concrete hash functions, ring views and surroundings on which the theorems below are
  instantiated. The key hash is the length of the key; a node has two positions, which
  depend on the lengths of its host and of its instance. The cluster is the one of the
  spec's scenario: three nodes, and a view of the second node that omits the third.
  The example process prints lines, not JSON, and its JSON decoder knows one well-formed
  input, the array of the one key \<^verbatim>\<open>x.y.z\<close>.
\<close>

definition example_hash :: hashfn where
  "example_hash =
     \<lparr>keyPosition = (\<lambda>k. length k),
      nodePositions =
        (\<lambda>n. [5 * length (Server n) + 2 * length (Instance n),
              5 * length (Server n) + 2 * length (Instance n) + 20])\<rparr>"

definition view_a :: JSONRingType where
  "view_a = \<lparr>Name = ''a'', Nodes = [''a'', ''bb:1'', ''ccc'']\<rparr>"

definition view_b :: JSONRingType where
  "view_b = \<lparr>Name = ''bb'', Nodes = [''ccc'', ''a'', ''bb:1'']\<rparr>"

definition view_c :: JSONRingType where
  "view_c = \<lparr>Name = ''ccc'', Nodes = [''a'', ''bb:1'', ''ccc'']\<rparr>"

definition view_b_without_c :: JSONRingType where
  "view_b_without_c = \<lparr>Name = ''bb'', Nodes = [''a'', ''bb:1'']\<rparr>"

definition view_two_instances :: JSONRingType where
  "view_two_instances = \<lparr>Name = ''a'', Nodes = [''a'', ''bb:1'', ''bb:22'']\<rparr>"

definition example_json :: string where
  "example_json = ''['' @ [CHR 0x22] @ ''x.y.z'' @ [CHR 0x22] @ '']''"

definition example_world :: world where
  "example_world =
     \<lparr>hashing = example_hash,
      GetRings = [view_a, view_b, view_c],
      Unmarshal = (\<lambda>blob. if blob = example_json then Inr [''x.y.z'']
                           else Inl ''invalid character''),
      Marshal = (\<lambda>list. Inl ''json: unsupported value''),
      RangeOrder = (\<lambda>list. concat (map (\<lambda>k. case list k of None \<Rightarrow> [] | Some v \<Rightarrow> [(k, v)])
                                  [''-'', ''a.b'', ''x.y.z''])),
      JSONOutput = False,
      Stdin = \<lparr>delivered = example_json, read_error = None\<rparr>\<rparr>"

definition example_backend :: "nat backend" where
  "example_backend = [''app.cpu'' \<mapsto> [10 \<mapsto> 1, 20 \<mapsto> 2]]"

definition example_content :: "nat points" where
  "example_content = [20 \<mapsto> 9, 30 \<mapsto> 3]"

section \<open>Properties of the model\<close>

subsection \<open>Split\<close>

lemma Split_not_Nil: "Split s sep \<noteq> []"
  by (induction s) (auto split: list.splits)

lemma Split_unfold:
  "Split s sep =
     takeWhile (\<lambda>c. c \<noteq> sep) s #
       (case dropWhile (\<lambda>c. c \<noteq> sep) s of [] \<Rightarrow> [] | _ # rest \<Rightarrow> Split rest sep)"
  by (induction s) (auto split: list.splits simp: Split_not_Nil)

lemma takeWhile_no_sep: "sep \<notin> set s \<Longrightarrow> takeWhile (\<lambda>c. c \<noteq> sep) s = s"
  by (induction s) auto

lemma dropWhile_no_sep: "sep \<notin> set s \<Longrightarrow> dropWhile (\<lambda>c. c \<noteq> sep) s = []"
  by (induction s) auto

lemma loop_body_node:
  "(let fields = Split n (CHR '':'') in
      if length fields < 2 then NewNode (fields ! 0) '''' else NewNode (fields ! 0) (fields ! 1))
   = identifier_node n"
proof (cases "dropWhile (\<lambda>c. c \<noteq> CHR '':'') n")
  case Nil
  show ?thesis
    by (simp add: Nil identifier_node_def Let_def Split_unfold[of n])
next
  case (Cons c rest)
  show ?thesis
    by (simp add: Cons identifier_node_def Let_def Split_unfold[of n] Split_unfold[of rest])
qed

lemma buildHashRing_loop_fold:
  "buildHashRing_loop hf ns hr = fold (\<lambda>n ring. AddNode hf ring (identifier_node n)) ns hr"
proof (induction ns arbitrary: hr)
  case Nil
  then show ?case by simp
next
  case (Cons n ns)
  have "buildHashRing_loop hf (n # ns) hr =
        buildHashRing_loop hf ns (AddNode hf hr
          (let fields = Split n (CHR '':'') in
            if length fields < 2 then NewNode (fields ! 0) '''' else NewNode (fields ! 0) (fields ! 1)))"
    by (simp add: Let_def)
  then show ?case using Cons.IH by (simp only: loop_body_node fold_simps)
qed

lemma identifier_node_plain: "CHR '':'' \<notin> set s \<Longrightarrow> identifier_node s = NewNode s ''''"
  by (simp add: identifier_node_def takeWhile_no_sep dropWhile_no_sep)

lemma identifier_node_pair:
  "CHR '':'' \<notin> set h \<Longrightarrow> CHR '':'' \<notin> set i \<Longrightarrow> identifier_node (h @ '':'' @ i) = NewNode h i"
  by (simp add: identifier_node_def takeWhile_append dropWhile_append takeWhile_no_sep
      dropWhile_no_sep)

subsection \<open>Health\<close>

lemma IsHealthy_pairwise:
  "IsHealthy views \<longleftrightarrow>
     views \<noteq> [] \<and> (\<forall>v\<in>set views. \<forall>w\<in>set views. set (Nodes v) = set (Nodes w))"
proof (cases views)
  case Nil
  then show ?thesis by (simp add: IsHealthy_def)
next
  case (Cons r rest)
  show ?thesis
    unfolding Cons IsHealthy_def by (auto simp: list_all_iff)
qed

lemma IsHealthy_hd: "IsHealthy views \<Longrightarrow> v \<in> set views \<Longrightarrow> set (Nodes v) = set (Nodes (hd views))"
  by (cases views) (auto simp: IsHealthy_pairwise)

subsection \<open>The ring\<close>

lemma fold_insort_insert:
  "set (fold (\<lambda>p ring. insort_insert (g p) ring) ps hr) = set hr \<union> g ` set ps"
  by (induction ps arbitrary: hr) (auto simp: set_insort_insert)

lemma fold_insort_insert_sorted:
  "sorted hr \<Longrightarrow> sorted (fold (\<lambda>p ring. insort_insert (g p) ring) ps hr)"
  by (induction ps arbitrary: hr) (auto simp: sorted_insort_insert)

lemma fold_insort_insert_distinct:
  "distinct hr \<Longrightarrow> distinct (fold (\<lambda>p ring. insort_insert (g p) ring) ps hr)"
  by (induction ps arbitrary: hr) (auto simp: distinct_insort_insert)

lemma set_AddNode: "set (AddNode hf hr node) = set hr \<union> entries hf node"
  by (simp add: AddNode_def entries_def fold_insort_insert)

lemma sorted_AddNode: "sorted hr \<Longrightarrow> sorted (AddNode hf hr node)"
  by (simp add: AddNode_def fold_insort_insert_sorted)

lemma distinct_AddNode: "distinct hr \<Longrightarrow> distinct (AddNode hf hr node)"
  by (simp add: AddNode_def fold_insort_insert_distinct)

lemma set_loop:
  "set (buildHashRing_loop hf ns hr) = set hr \<union> (\<Union>n\<in>set ns. entries hf (identifier_node n))"
  unfolding buildHashRing_loop_fold
  by (induction ns arbitrary: hr) (auto simp: set_AddNode)

lemma sorted_loop: "sorted hr \<Longrightarrow> sorted (buildHashRing_loop hf ns hr)"
  unfolding buildHashRing_loop_fold
  by (induction ns arbitrary: hr) (auto simp: sorted_AddNode)

lemma distinct_loop: "distinct hr \<Longrightarrow> distinct (buildHashRing_loop hf ns hr)"
  unfolding buildHashRing_loop_fold
  by (induction ns arbitrary: hr) (auto simp: distinct_AddNode)

lemma loop_order_independent:
  assumes "set ns = set ns'"
  shows "buildHashRing_loop hf ns NewHashRing = buildHashRing_loop hf ns' NewHashRing"
proof (rule sorted_distinct_set_unique)
  show "sorted (buildHashRing_loop hf ns NewHashRing)"
    by (simp add: sorted_loop NewHashRing_def)
  show "sorted (buildHashRing_loop hf ns' NewHashRing)"
    by (simp add: sorted_loop NewHashRing_def)
  show "distinct (buildHashRing_loop hf ns NewHashRing)"
    by (simp add: distinct_loop NewHashRing_def)
  show "distinct (buildHashRing_loop hf ns' NewHashRing)"
    by (simp add: distinct_loop NewHashRing_def)
  show "set (buildHashRing_loop hf ns NewHashRing) = set (buildHashRing_loop hf ns' NewHashRing)"
    by (simp add: set_loop assms)
qed

lemma fold_insort_insert_present:
  "g ` set ps \<subseteq> set hr \<Longrightarrow> fold (\<lambda>p ring. insort_insert (g p) ring) ps hr = hr"
  by (induction ps) (simp_all add: insort_insert_triv)

lemma AddNode_duplicate: "AddNode hf (AddNode hf hr node) node = AddNode hf hr node"
proof -
  have "(\<lambda>p. (p, Server node, Instance node)) ` set (nodePositions hf node)
          \<subseteq> set (AddNode hf hr node)"
    by (simp add: set_AddNode entries_def)
  then show ?thesis
    by (subst AddNode_def) (rule fold_insort_insert_present)
qed

lemma GetNode_empty: "GetNode hf [] key = Inl EmptyRingError"
  by (simp add: GetNode_def)

lemma GetNode_member:
  assumes "hr \<noteq> []"
  shows "\<exists>p server instance. (p, server, instance) \<in> set hr \<and>
           GetNode hf hr key = Inr (NewNode server instance)"
proof (cases "find (\<lambda>e. keyPosition hf key \<le> fst e) hr")
  case None
  with assms show ?thesis
    by (cases hr) (auto simp: GetNode_def)
next
  case (Some e)
  then have "e \<in> set hr"
    by (auto simp: find_Some_iff)
  with Some assms show ?thesis
    by (cases hr; cases e) (auto simp: GetNode_def simp del: find.simps)
qed


subsection \<open>Locating\<close>

lemma loop_closed_form:
  assumes "hr \<noteq> []"
  shows "LocateSliceMetrics_loop hf hr keys acc =
           Inr (\<lambda>k. if k \<in> set keys
                     then (case GetNode hf hr k of Inr node \<Rightarrow> Some (Server node) | Inl e \<Rightarrow> None)
                     else acc k)"
proof (induction keys arbitrary: acc)
  case Nil
  then show ?case by simp
next
  case (Cons key keys)
  from GetNode_member[OF assms, of hf key] obtain node where node: "GetNode hf hr key = Inr node"
    by blast
  have "LocateSliceMetrics_loop hf hr (key # keys) acc =
          LocateSliceMetrics_loop hf hr keys (acc(key \<mapsto> Server node))"
    by (simp add: node)
  also have "\<dots> = Inr (\<lambda>k. if k \<in> set keys
                     then (case GetNode hf hr k of Inr node \<Rightarrow> Some (Server node) | Inl e \<Rightarrow> None)
                     else (acc(key \<mapsto> Server node)) k)"
    by (rule Cons.IH)
  also have "(\<lambda>k. if k \<in> set keys
                     then (case GetNode hf hr k of Inr node \<Rightarrow> Some (Server node) | Inl e \<Rightarrow> None)
                     else (acc(key \<mapsto> Server node)) k) =
             (\<lambda>k. if k \<in> set (key # keys)
                     then (case GetNode hf hr k of Inr node \<Rightarrow> Some (Server node) | Inl e \<Rightarrow> None)
                     else acc k)"
    by (rule ext) (simp add: node)
  finally show ?case .
qed

lemma loop_empty_ring:
  "keys \<noteq> [] \<Longrightarrow> LocateSliceMetrics_loop hf [] keys acc = Inl EmptyRingError"
  by (cases keys) (simp_all add: GetNode_empty)

lemma buildHashRing_healthy:
  "IsHealthy rings \<Longrightarrow>
   buildHashRing hf rings = Inr (buildHashRing_loop hf (Nodes (rings ! 0)) NewHashRing)"
  by (cases rings) (simp_all add: buildHashRing_def IsHealthy_def)

lemma LocateSliceMetrics_unhealthy:
  "\<not> IsHealthy rings \<Longrightarrow> LocateSliceMetrics hf rings metrics = Inl ClusterInconsistentError"
  by (simp add: LocateSliceMetrics_def)

lemma LocateSliceMetrics_healthy:
  assumes "IsHealthy rings" and "buildHashRing hf rings = Inr hr"
  shows "LocateSliceMetrics hf rings metrics =
           (if hr = [] then (if metrics = [] then Inr Map.empty else Inl EmptyRingError)
            else Inr (\<lambda>k. if k \<in> set metrics
                     then (case GetNode hf hr k of Inr node \<Rightarrow> Some (Server node) | Inl e \<Rightarrow> None)
                     else None))"
proof (cases "hr = []")
  case True
  with assms show ?thesis
    by (cases metrics) (simp_all add: LocateSliceMetrics_def GetNode_empty)
next
  case False
  with assms loop_closed_form[OF False, of hf metrics Map.empty] show ?thesis
    by (simp add: LocateSliceMetrics_def)
qed

lemma LocateSliceMetrics_Inr:
  assumes "LocateSliceMetrics hf rings metrics = Inr m"
  shows "IsHealthy rings \<and>
         (\<exists>hr. buildHashRing hf rings = Inr hr \<and> (metrics \<noteq> [] \<longrightarrow> hr \<noteq> []) \<and>
            m = (\<lambda>k. if k \<in> set metrics
                     then (case GetNode hf hr k of Inr node \<Rightarrow> Some (Server node) | Inl e \<Rightarrow> None)
                     else None))"
proof -
  have h: "IsHealthy rings"
  proof (rule ccontr)
    assume "\<not> IsHealthy rings"
    from LocateSliceMetrics_unhealthy[OF this, of hf metrics] assms show False by simp
  qed
  let ?hr = "buildHashRing_loop hf (Nodes (rings ! 0)) NewHashRing"
  let ?m = "\<lambda>hr k. if k \<in> set metrics
                     then (case GetNode hf hr k of Inr node \<Rightarrow> Some (Server node) | Inl e \<Rightarrow> None)
                     else None"
  have b: "buildHashRing hf rings = Inr ?hr"
    by (rule buildHashRing_healthy[OF h])
  note eq = LocateSliceMetrics_healthy[OF h b, of metrics]
  have "(metrics \<noteq> [] \<longrightarrow> ?hr \<noteq> []) \<and> m = ?m ?hr"
  proof (cases "?hr = []")
    case True
    show ?thesis
    proof (cases "metrics = []")
      case True
      with \<open>?hr = []\<close> eq assms have "m = Map.empty" by simp
      with True show ?thesis by simp
    next
      case False
      with \<open>?hr = []\<close> eq assms show ?thesis by simp
    qed
  next
    case False
    with eq assms have "Inr (?m ?hr) = (Inr m :: failure + (string \<rightharpoonup> string))" by simp
    then have "m = ?m ?hr" by (simp only: sum.inject)
    with False show ?thesis by simp
  qed
  with h b show ?thesis by blast
qed

lemma LocateSliceMetrics_returns:
  assumes "IsHealthy rings" and "buildHashRing hf rings = Inr hr" and "hr \<noteq> []"
  shows "\<exists>m. LocateSliceMetrics hf rings metrics = Inr m"
proof -
  from LocateSliceMetrics_healthy[OF assms(1,2), of metrics] assms(3)
  have "LocateSliceMetrics hf rings metrics =
          Inr (\<lambda>k. if k \<in> set metrics
                     then (case GetNode hf hr k of Inr node \<Rightarrow> Some (Server node) | Inl e \<Rightarrow> None)
                     else None)"
    by (simp only: if_False)
  then show ?thesis by blast
qed

lemma LocateSliceMetrics_dom:
  assumes "LocateSliceMetrics hf rings metrics = Inr m"
  shows "dom m = set metrics"
proof -
  from LocateSliceMetrics_Inr[OF assms] obtain hr where
    ne: "metrics \<noteq> [] \<longrightarrow> hr \<noteq> []" and
    m: "m = (\<lambda>k. if k \<in> set metrics
                 then (case GetNode hf hr k of Inr node \<Rightarrow> Some (Server node) | Inl e \<Rightarrow> None)
                 else None)"
    by blast
  show ?thesis
  proof
    show "dom m \<subseteq> set metrics" by (auto simp: m split: if_splits)
    show "set metrics \<subseteq> dom m"
    proof
      fix key assume k: "key \<in> set metrics"
      with ne have "hr \<noteq> []" by auto
      from GetNode_member[OF this, of hf key] obtain node where "GetNode hf hr key = Inr node"
        by blast
      with k show "key \<in> dom m" by (auto simp: m)
    qed
  qed
qed

lemma LocateSliceMetrics_total:
  assumes "IsHealthy rings"
    and "n \<in> set (Nodes (rings ! 0))" and "nodePositions hf (identifier_node n) \<noteq> []"
  shows "\<exists>m. LocateSliceMetrics hf rings metrics = Inr m"
proof -
  let ?hr = "buildHashRing_loop hf (Nodes (rings ! 0)) NewHashRing"
  from assms(3) obtain p where "p \<in> set (nodePositions hf (identifier_node n))"
    by (cases "nodePositions hf (identifier_node n)") auto
  then have "(p, Server (identifier_node n), Instance (identifier_node n))
               \<in> entries hf (identifier_node n)"
    by (simp add: entries_def)
  with assms(2) have "set ?hr \<noteq> {}"
    by (auto simp: set_loop)
  then have "?hr \<noteq> []" by auto
  with LocateSliceMetrics_returns[OF assms(1) buildHashRing_healthy[OF assms(1)]]
  show ?thesis by blast
qed

subsection \<open>Metric files\<close>

lemma fill_slot_cases:
  "(on_disk \<noteq> None \<longrightarrow> fill_slot on_disk supplied = on_disk) \<and>
   (on_disk = None \<longrightarrow> fill_slot on_disk supplied = supplied)"
  by (cases on_disk) (simp_all add: fill_slot_def)

lemma backfill_existing:
  assumes "store key = Some on_disk"
  shows "\<exists>merged. BackfillMetricFile store key content key = Some merged \<and>
         (\<forall>slot. (on_disk slot \<noteq> None \<longrightarrow> merged slot = on_disk slot) \<and>
                 (on_disk slot = None \<longrightarrow> merged slot = content slot))"
proof (intro exI conjI allI)
  show "BackfillMetricFile store key content key =
          Some (\<lambda>slot. fill_slot (on_disk slot) (content slot))"
    using assms by (simp add: BackfillMetricFile_def)
  fix slot
  show "on_disk slot \<noteq> None \<longrightarrow> fill_slot (on_disk slot) (content slot) = on_disk slot"
    using fill_slot_cases[of "on_disk slot" "content slot"] by (rule conjunct1)
  show "on_disk slot = None \<longrightarrow> fill_slot (on_disk slot) (content slot) = content slot"
    using fill_slot_cases[of "on_disk slot" "content slot"] by (rule conjunct2)
qed

subsection \<open>The example cluster, evaluated\<close>

lemma example_ring:
  "buildHashRing example_hash [view_a, view_b, view_c] =
     Inr [(5, ''a'', ''''), (12, ''bb'', ''1''), (15, ''ccc'', ''''),
      (25, ''a'', ''''), (32, ''bb'', ''1''), (35, ''ccc'', '''')]"
  by code_simp

lemma example_healthy: "IsHealthy [view_a, view_b, view_c]"
  by code_simp

lemma example_locate:
  "LocateSliceMetrics_loop example_hash
     [(5, ''a'', ''''), (12, ''bb'', ''1''), (15, ''ccc'', ''''),
      (25, ''a'', ''''), (32, ''bb'', ''1''), (35, ''ccc'', '''')]
     [''x.y.z'', ''app.cpu'', ''x.y.z''] Map.empty
   = Inr [''x.y.z'' \<mapsto> ''a'', ''app.cpu'' \<mapsto> ''bb'', ''x.y.z'' \<mapsto> ''a'']"
  by (simp add: GetNode_def example_hash_def NewNode_def)

lemma example_ring_two_instances:
  "buildHashRing example_hash [view_two_instances] =
     Inr [(5, ''a'', ''''), (12, ''bb'', ''1''), (14, ''bb'', ''22''),
      (25, ''a'', ''''), (32, ''bb'', ''1''), (34, ''bb'', ''22'')]"
  by code_simp

lemma example_locate_two_instances:
  "LocateSliceMetrics_loop example_hash
     [(5, ''a'', ''''), (12, ''bb'', ''1''), (14, ''bb'', ''22''),
      (25, ''a'', ''''), (32, ''bb'', ''1''), (34, ''bb'', ''22'')]
     [''x.y.z.w'', ''app.host1.cpu''] Map.empty
   = Inr [''x.y.z.w'' \<mapsto> ''bb'', ''app.host1.cpu'' \<mapsto> ''bb'']"
  by (simp add: GetNode_def example_hash_def NewNode_def)

lemma example_world_locate_json:
  "LocateJSONMetrics (hashing example_world) (Unmarshal example_world) (GetRings example_world)
     (Stdin example_world) = Inr [''x.y.z'' \<mapsto> ''a'']"
proof -
  have ring: "buildHashRing example_hash [view_a, view_b, view_c] =
    Inr [(5, ''a'', ''''), (12, ''bb'', ''1''), (15, ''ccc'', ''''),
         (25, ''a'', ''''), (32, ''bb'', ''1''), (35, ''ccc'', '''')]"
    by (rule example_ring)
  have loop: "LocateSliceMetrics_loop example_hash
     [(5, ''a'', ''''), (12, ''bb'', ''1''), (15, ''ccc'', ''''),
      (25, ''a'', ''''), (32, ''bb'', ''1''), (35, ''ccc'', '''')] [''x.y.z''] Map.empty
     = Inr [''x.y.z'' \<mapsto> ''a'']"
    by (simp add: GetNode_def example_hash_def NewNode_def)
  have slice: "LocateSliceMetrics example_hash [view_a, view_b, view_c] [''x.y.z'']
                 = Inr [''x.y.z'' \<mapsto> ''a'']"
    by (simp only: LocateSliceMetrics_def example_healthy ring loop
        not_True_eq_False if_False sum.case)
  show ?thesis
    by (simp add: LocateJSONMetrics_def ReadAll_def example_world_def slice)
qed

lemma example_locate_one:
  "LocateSliceMetrics (hashing example_world) (GetRings example_world) [''x.y.z'']
     = Inr [''x.y.z'' \<mapsto> ''a'']"
proof -
  have loop: "LocateSliceMetrics_loop example_hash
     [(5, ''a'', ''''), (12, ''bb'', ''1''), (15, ''ccc'', ''''),
      (25, ''a'', ''''), (32, ''bb'', ''1''), (35, ''ccc'', '''')] [''x.y.z''] Map.empty
     = Inr [''x.y.z'' \<mapsto> ''a'']"
    by (simp add: GetNode_def example_hash_def NewNode_def)
  have slice: "LocateSliceMetrics example_hash [view_a, view_b, view_c] [''x.y.z'']
                 = Inr [''x.y.z'' \<mapsto> ''a'']"
    by (simp only: LocateSliceMetrics_def example_healthy example_ring loop
        not_True_eq_False if_False sum.case)
  then show ?thesis
    by (simp add: example_world_def)
qed

section \<open>The claims\<close>

subsection \<open>C1: placement is gated by cluster health\<close>

text \<open>
  Claim C1. Whatever the batch of metric keys: when the ring views that were retrieved
  are not all consistent, \<^verbatim>\<open>LocateSliceMetrics\<close> ends with the cluster-inconsistency
  failure and maps no key to a node. The gate is the first thing the function does
  with the value of \<^verbatim>\<open>GetRings()\<close>, before the ring is built and before any key is
  hashed, so the result is the same for every hash function and every batch. (The
  single-host override is not looked at by \<^verbatim>\<open>LocateSliceMetrics\<close>; it can only act
  through what \<^verbatim>\<open>GetRings\<close> returns.)
\<close>

theorem LocateSliceMetrics_health_gated:
  assumes "\<not> IsHealthy rings"
  shows "LocateSliceMetrics hf rings metrics = Inl ClusterInconsistentError \<and>
         (\<forall>m. LocateSliceMetrics hf rings metrics \<noteq> Inr m)"
  using assms by (simp add: LocateSliceMetrics_def)

theorem LocateSliceMetrics_health_gated_witness:
  "\<not> IsHealthy [view_a, view_b_without_c, view_c] \<and>
   LocateSliceMetrics example_hash [view_a, view_b_without_c, view_c] [''x.y.z'']
     = Inl (Fatal ''Cluster is inconsistent. Use the servers command to investigate.'')"
proof -
  have unhealthy: "\<not> IsHealthy [view_a, view_b_without_c, view_c]"
    by code_simp
  from LocateSliceMetrics_health_gated[OF unhealthy, of example_hash "[''x.y.z'']"] unhealthy
  show ?thesis
    by (simp add: ClusterInconsistentError_def)
qed

subsection \<open>C2: backfill fills gaps and keeps populated slots\<close>

text \<open>
  Claim C2. Backfilling an existing metric changes a time slot only if the slot is a
  gap on disk: every populated slot keeps its value, every gap takes the supplied
  value. So after putting \<open>P1\<close> and backfilling with \<open>P2\<close>, the metric holds \<open>P1\<close>
  where \<open>P1\<close> is populated and \<open>P2\<close> elsewhere. Backfilling an absent metric is Put: the
  metric then holds exactly the supplied content. Other metrics are not touched.
\<close>

theorem BackfillMetricFile_fills_gaps_only:
  "(\<forall>on_disk. store key = Some on_disk \<longrightarrow>
      (\<exists>merged. BackfillMetricFile store key content key = Some merged \<and>
         (\<forall>slot. (on_disk slot \<noteq> None \<longrightarrow> merged slot = on_disk slot) \<and>
                 (on_disk slot = None \<longrightarrow> merged slot = content slot)))) \<and>
   (\<exists>merged. BackfillMetricFile (PutMetricFile store key P1) key P2 key = Some merged \<and>
      (\<forall>slot. (P1 slot \<noteq> None \<longrightarrow> merged slot = P1 slot) \<and>
              (P1 slot = None \<longrightarrow> merged slot = P2 slot))) \<and>
   (store key = None \<longrightarrow>
      BackfillMetricFile store key content = PutMetricFile store key content \<and>
      BackfillMetricFile store key content key = Some content) \<and>
   (\<forall>other. other \<noteq> key \<longrightarrow> BackfillMetricFile store key content other = store other)"
proof (intro conjI allI impI)
  fix on_disk
  assume "store key = Some on_disk"
  then show "\<exists>merged. BackfillMetricFile store key content key = Some merged \<and>
         (\<forall>slot. (on_disk slot \<noteq> None \<longrightarrow> merged slot = on_disk slot) \<and>
                 (on_disk slot = None \<longrightarrow> merged slot = content slot))"
    by (rule backfill_existing)
next
  have "PutMetricFile store key P1 key = Some P1"
    by (simp add: PutMetricFile_def)
  then show "\<exists>merged. BackfillMetricFile (PutMetricFile store key P1) key P2 key = Some merged \<and>
      (\<forall>slot. (P1 slot \<noteq> None \<longrightarrow> merged slot = P1 slot) \<and>
              (P1 slot = None \<longrightarrow> merged slot = P2 slot))"
    by (rule backfill_existing)
next
  assume "store key = None"
  then show "BackfillMetricFile store key content = PutMetricFile store key content"
    by (simp add: BackfillMetricFile_def)
next
  assume "store key = None"
  then show "BackfillMetricFile store key content key = Some content"
    by (simp add: BackfillMetricFile_def PutMetricFile_def)
next
  fix other
  assume "other \<noteq> key"
  then show "BackfillMetricFile store key content other = store other"
    by (simp add: BackfillMetricFile_def PutMetricFile_def split: option.splits)
qed

theorem BackfillMetricFile_fills_gaps_only_witness:
  "(\<exists>merged. BackfillMetricFile example_backend ''app.cpu'' example_content ''app.cpu'' = Some merged \<and>
      merged 10 = Some 1 \<and> merged 20 = Some 2 \<and> merged 30 = Some 3 \<and> merged 40 = None) \<and>
   BackfillMetricFile example_backend ''app.mem'' example_content ''app.mem'' = Some example_content \<and>
   BackfillMetricFile example_backend ''app.mem'' example_content ''app.cpu''
     = Some [10 \<mapsto> 1, 20 \<mapsto> 2]"
proof -
  let ?disk = "[10 \<mapsto> 1, 20 \<mapsto> 2] :: nat points"
  have present: "example_backend ''app.cpu'' = Some ?disk"
    by (simp add: example_backend_def)
  have missing: "example_backend ''app.mem'' = None"
    by (simp add: example_backend_def)
  note at_cpu = BackfillMetricFile_fills_gaps_only[of example_backend "''app.cpu''" example_content]
  note at_mem = BackfillMetricFile_fills_gaps_only[of example_backend "''app.mem''" example_content]
  from at_cpu[THEN conjunct1, rule_format, OF present]
  have first: "\<exists>merged.
      BackfillMetricFile example_backend ''app.cpu'' example_content ''app.cpu'' = Some merged \<and>
      merged 10 = Some 1 \<and> merged 20 = Some 2 \<and> merged 30 = Some 3 \<and> merged 40 = None"
  proof (elim exE conjE)
    fix merged
    assume merged:
      "BackfillMetricFile example_backend ''app.cpu'' example_content ''app.cpu'' = Some merged"
    assume slots: "\<forall>slot. (?disk slot \<noteq> None \<longrightarrow> merged slot = ?disk slot) \<and>
                         (?disk slot = None \<longrightarrow> merged slot = example_content slot)"
    from slots[rule_format, of 10] have s10: "merged 10 = Some 1" by simp
    from slots[rule_format, of 20] have s20: "merged 20 = Some 2" by simp
    from slots[rule_format, of 30] have s30: "merged 30 = Some 3"
      by (simp add: example_content_def)
    from slots[rule_format, of 40] have s40: "merged 40 = None"
      by (simp add: example_content_def)
    from merged s10 s20 s30 s40 show ?thesis
      by (intro exI[of _ merged] conjI)
  qed
  from at_mem[THEN conjunct2, THEN conjunct2, THEN conjunct1, rule_format, OF missing]
  have second: "BackfillMetricFile example_backend ''app.mem'' example_content ''app.mem''
                  = Some example_content"
    by (rule conjunct2)
  from at_mem[THEN conjunct2, THEN conjunct2, THEN conjunct2, rule_format, of "''app.cpu''"]
  have "BackfillMetricFile example_backend ''app.mem'' example_content ''app.cpu''
          = example_backend ''app.cpu''"
    by simp
  with present have third: "BackfillMetricFile example_backend ''app.mem'' example_content ''app.cpu''
          = Some [10 \<mapsto> 1, 20 \<mapsto> 2]"
    by simp
  from first second third show ?thesis by (intro conjI)
qed

subsection \<open>C3: when a cluster is healthy\<close>

text \<open>
  Claim C3. \<^verbatim>\<open>IsHealthy\<close> is true if and only if at least one view was retrieved and
  the node sets of any two retrieved views are equal as sets, whatever the order of the
  identifiers; it is false as soon as two retrieved views have different node sets.
\<close>

theorem IsHealthy_iff_views_agree:
  "(IsHealthy views \<longleftrightarrow>
      views \<noteq> [] \<and> (\<forall>v\<in>set views. \<forall>w\<in>set views. set (Nodes v) = set (Nodes w))) \<and>
   (v \<in> set views \<and> w \<in> set views \<and> set (Nodes v) \<noteq> set (Nodes w) \<longrightarrow> \<not> IsHealthy views)"
  using IsHealthy_pairwise[of views] by blast

theorem IsHealthy_iff_views_agree_witness:
  "IsHealthy [view_a, view_b, view_c] \<and> \<not> IsHealthy [view_a, view_b_without_c, view_c] \<and>
   \<not> IsHealthy []"
proof -
  have agree: "\<forall>v\<in>set [view_a, view_b, view_c]. \<forall>w\<in>set [view_a, view_b, view_c].
                 set (Nodes v) = set (Nodes w)"
    by (auto simp: view_a_def view_b_def view_c_def)
  have differ: "set (Nodes view_b_without_c) \<noteq> set (Nodes view_c)"
    by code_simp
  from IsHealthy_iff_views_agree[of "[view_a, view_b, view_c]"] agree
  have "IsHealthy [view_a, view_b, view_c]" by blast
  moreover
  from IsHealthy_iff_views_agree[of "[view_a, view_b_without_c, view_c]" view_b_without_c view_c] differ
  have "\<not> IsHealthy [view_a, view_b_without_c, view_c]" by simp
  moreover
  from IsHealthy_iff_views_agree[of "[]"] have "\<not> IsHealthy []" by simp
  ultimately show ?thesis by blast
qed

subsection \<open>C4: key resolution depends on the node set and the key only\<close>

text \<open>
  Claim C4. Two runs over healthy clusters with the same node set resolve every key
  alike: the rings built are the same, so \<^verbatim>\<open>GetNode\<close> returns the same node for the
  same key, and \<^verbatim>\<open>LocateSliceMetrics\<close> returns the same mapping. Neither the names of
  the reporting nodes, nor the order of the views, nor the order of the identifiers
  within a view matters.
\<close>

theorem locate_depends_on_node_set_only:
  assumes "IsHealthy rings" and "IsHealthy rings'"
    and "v \<in> set rings" and "w \<in> set rings'" and "set (Nodes v) = set (Nodes w)"
  shows "(\<exists>hr. buildHashRing hf rings = Inr hr \<and> buildHashRing hf rings' = Inr hr) \<and>
         (\<forall>hr hr'. buildHashRing hf rings = Inr hr \<and> buildHashRing hf rings' = Inr hr'
            \<longrightarrow> GetNode hf hr key = GetNode hf hr' key) \<and>
         LocateSliceMetrics hf rings metrics = LocateSliceMetrics hf rings' metrics"
proof -
  have "set (Nodes (rings ! 0)) = set (Nodes v)"
    using IsHealthy_hd[OF assms(1,3)] assms(3) by (cases rings) auto
  moreover have "set (Nodes (rings' ! 0)) = set (Nodes w)"
    using IsHealthy_hd[OF assms(2,4)] assms(4) by (cases rings') auto
  ultimately have "set (Nodes (rings ! 0)) = set (Nodes (rings' ! 0))"
    using assms(5) by simp
  then have ring: "buildHashRing_loop hf (Nodes (rings ! 0)) NewHashRing =
                   buildHashRing_loop hf (Nodes (rings' ! 0)) NewHashRing"
    by (rule loop_order_independent)
  have b: "buildHashRing hf rings = buildHashRing hf rings'"
    by (simp add: buildHashRing_healthy assms(1,2) ring)
  have b': "buildHashRing hf rings' = Inr (buildHashRing_loop hf (Nodes (rings' ! 0)) NewHashRing)"
    by (rule buildHashRing_healthy[OF assms(2)])
  have same_ring: "\<exists>hr. buildHashRing hf rings = Inr hr \<and> buildHashRing hf rings' = Inr hr"
    using b b' by simp
  have same_node: "\<forall>hr hr'. buildHashRing hf rings = Inr hr \<and> buildHashRing hf rings' = Inr hr'
            \<longrightarrow> GetNode hf hr key = GetNode hf hr' key"
    using b[unfolded b'] b' by simp
  have "LocateSliceMetrics hf rings metrics = LocateSliceMetrics hf rings' metrics"
    by (simp only: LocateSliceMetrics_healthy[OF assms(1) b[unfolded b']]
        LocateSliceMetrics_healthy[OF assms(2) b'])
  with same_ring same_node show ?thesis by (intro conjI)
qed

theorem locate_depends_on_node_set_only_witness:
  "IsHealthy [view_a, view_b, view_c] \<and> IsHealthy [view_b, view_a] \<and>
   buildHashRing example_hash [view_a, view_b, view_c] = buildHashRing example_hash [view_b, view_a] \<and>
   LocateSliceMetrics example_hash [view_a, view_b, view_c] [''x.y.z'', ''app.cpu'']
     = LocateSliceMetrics example_hash [view_b, view_a] [''x.y.z'', ''app.cpu'']"
proof -
  have h1: "IsHealthy [view_a, view_b, view_c]"
    by (auto simp: IsHealthy_def view_a_def view_b_def view_c_def)
  have h2: "IsHealthy [view_b, view_a]"
    by (auto simp: IsHealthy_def view_a_def view_b_def)
  have m1: "view_c \<in> set [view_a, view_b, view_c]" by simp
  have m2: "view_b \<in> set [view_b, view_a]" by simp
  have same: "set (Nodes view_c) = set (Nodes view_b)"
    by (auto simp: view_b_def view_c_def)
  note at_views =
    locate_depends_on_node_set_only[OF h1 h2 m1 m2 same, of example_hash "''x.y.z''"
      "[''x.y.z'', ''app.cpu'']"]
  from at_views[THEN conjunct1]
  have "buildHashRing example_hash [view_a, view_b, view_c] =
          buildHashRing example_hash [view_b, view_a]"
    by (elim exE conjE) simp
  moreover from at_views[THEN conjunct2, THEN conjunct2]
  have "LocateSliceMetrics example_hash [view_a, view_b, view_c] [''x.y.z'', ''app.cpu'']
          = LocateSliceMetrics example_hash [view_b, view_a] [''x.y.z'', ''app.cpu'']" .
  ultimately show ?thesis using h1 h2 by (intro conjI)
qed

subsection \<open>C5: unrecoverable preconditions end the process\<close>

text \<open>
  Claim C5. Each of the three unrecoverable preconditions of the locate command ends
  the process with exit status 1, a diagnostic on standard error and nothing on standard
  output: no argument at all; an inconsistent cluster (with arguments that are metric
  keys, or with a first argument \<^verbatim>\<open>-\<close> and input that decodes); and, with a first
  argument \<^verbatim>\<open>-\<close>, input that does not decode as JSON.
\<close>

theorem locateCommand_fatal_preconditions:
  "(args = [] \<longrightarrow>
      locateCommand w args =
        \<lparr>completion = Exited 1, stdout = [],
         stderr = ''At least one argument is required.'' @ [CHR 0x0A], stdin_read = False\<rparr>) \<and>
   (args \<noteq> [] \<and> \<not> IsHealthy (GetRings w) \<and>
    (args ! 0 = ''-'' \<longrightarrow> (\<exists>metrics. Unmarshal w (delivered (Stdin w)) = Inr metrics)) \<longrightarrow>
      completion (locateCommand w args) = Exited 1 \<and>
      stdout (locateCommand w args) = [] \<and>
      stderr (locateCommand w args) =
        ''Cluster is inconsistent. Use the servers command to investigate.'' @ [CHR 0x0A]) \<and>
   (args \<noteq> [] \<and> args ! 0 = ''-'' \<and> Unmarshal w (delivered (Stdin w)) = Inl e \<longrightarrow>
      completion (locateCommand w args) = Exited 1 \<and>
      stdout (locateCommand w args) = [] \<and>
      stderr (locateCommand w args) = ''Error unmarshalling JSON data: %s'' @ e @ [CHR 0x0A])"
proof (intro conjI impI)
  assume "args = []"
  then show "locateCommand w args =
        \<lparr>completion = Exited 1, stdout = [],
         stderr = ''At least one argument is required.'' @ [CHR 0x0A], stdin_read = False\<rparr>"
    by (simp add: locateCommand_def die_def)
next
  assume a: "args \<noteq> [] \<and> \<not> IsHealthy (GetRings w) \<and>
    (args ! 0 = ''-'' \<longrightarrow> (\<exists>metrics. Unmarshal w (delivered (Stdin w)) = Inr metrics))"
  then have gate: "LocateSliceMetrics (hashing w) (GetRings w) metrics = Inl ClusterInconsistentError"
    for metrics
    by (simp add: LocateSliceMetrics_unhealthy)
  have "\<exists>rd. locateCommand w args = die ClusterInconsistentError rd"
  proof (cases "args ! 0 = ''-''")
    case True
    with a obtain metrics where "Unmarshal w (delivered (Stdin w)) = Inr metrics" by blast
    with a True have "locateCommand w args = die ClusterInconsistentError True"
      by (simp add: locateCommand_def LocateJSONMetrics_def ReadAll_def gate)
    then show ?thesis ..
  next
    case False
    with a have "locateCommand w args = die ClusterInconsistentError False"
      by (simp add: locateCommand_def gate)
    then show ?thesis ..
  qed
  then obtain rd where "locateCommand w args = die ClusterInconsistentError rd" ..
  then show "completion (locateCommand w args) = Exited 1"
    and "stdout (locateCommand w args) = []"
    and "stderr (locateCommand w args) =
        ''Cluster is inconsistent. Use the servers command to investigate.'' @ [CHR 0x0A]"
    by (simp_all add: die_def ClusterInconsistentError_def)
next
  assume a: "args \<noteq> [] \<and> args ! 0 = ''-'' \<and> Unmarshal w (delivered (Stdin w)) = Inl e"
  then have "locateCommand w args = die (Fatal (''Error unmarshalling JSON data: %s'' @ e)) True"
    by (simp add: locateCommand_def LocateJSONMetrics_def ReadAll_def)
  then show "completion (locateCommand w args) = Exited 1"
    and "stdout (locateCommand w args) = []"
    and "stderr (locateCommand w args) = ''Error unmarshalling JSON data: %s'' @ e @ [CHR 0x0A]"
    by (simp_all add: die_def)
qed

theorem locateCommand_fatal_preconditions_witness:
  "completion (locateCommand example_world []) = Exited 1 \<and>
   stderr (locateCommand example_world []) = ''At least one argument is required.'' @ [CHR 0x0A] \<and>
   completion (locateCommand (example_world\<lparr>GetRings := [view_a, view_b_without_c, view_c]\<rparr>)
     [''x.y.z'']) = Exited 1 \<and>
   stdout (locateCommand (example_world\<lparr>GetRings := [view_a, view_b_without_c, view_c]\<rparr>)
     [''x.y.z'']) = [] \<and>
   stderr (locateCommand (example_world\<lparr>GetRings := [view_a, view_b_without_c, view_c]\<rparr>)
     [''x.y.z'']) = ''Cluster is inconsistent. Use the servers command to investigate.'' @ [CHR 0x0A] \<and>
   completion (locateCommand (example_world\<lparr>Stdin := \<lparr>delivered = ''[]x'', read_error = None\<rparr>\<rparr>)
     [''-'']) = Exited 1 \<and>
   stdout (locateCommand (example_world\<lparr>Stdin := \<lparr>delivered = ''[]x'', read_error = None\<rparr>\<rparr>)
     [''-'']) = [] \<and>
   stderr (locateCommand (example_world\<lparr>Stdin := \<lparr>delivered = ''[]x'', read_error = None\<rparr>\<rparr>)
     [''-'']) = ''Error unmarshalling JSON data: %s'' @ ''invalid character'' @ [CHR 0x0A]"
proof -
  let ?split = "example_world\<lparr>GetRings := [view_a, view_b_without_c, view_c]\<rparr>"
  let ?garbled = "example_world\<lparr>Stdin := \<lparr>delivered = ''[]x'', read_error = None\<rparr>\<rparr>"
  have unhealthy: "\<not> IsHealthy (GetRings ?split)"
  proof -
    have "\<not> IsHealthy [view_a, view_b_without_c, view_c]" by code_simp
    then show ?thesis by simp
  qed
  have bad: "Unmarshal ?garbled (delivered (Stdin ?garbled)) = Inl ''invalid character''"
    by (simp add: example_world_def example_json_def)
  from locateCommand_fatal_preconditions[of "[]" example_world]
  have none: "locateCommand example_world [] =
        \<lparr>completion = Exited 1, stdout = [],
         stderr = ''At least one argument is required.'' @ [CHR 0x0A], stdin_read = False\<rparr>"
    by simp
  from locateCommand_fatal_preconditions[of "[''x.y.z'']" ?split] unhealthy
  have split: "completion (locateCommand ?split [''x.y.z'']) = Exited 1 \<and>
      stdout (locateCommand ?split [''x.y.z'']) = [] \<and>
      stderr (locateCommand ?split [''x.y.z'']) =
        ''Cluster is inconsistent. Use the servers command to investigate.'' @ [CHR 0x0A]"
    by simp
  from locateCommand_fatal_preconditions[of "[''-'']" ?garbled "''invalid character''"] bad
  have garbled: "completion (locateCommand ?garbled [''-'']) = Exited 1 \<and>
      stdout (locateCommand ?garbled [''-'']) = [] \<and>
      stderr (locateCommand ?garbled [''-'']) =
        ''Error unmarshalling JSON data: %s'' @ ''invalid character'' @ [CHR 0x0A]"
    by simp
  from none split garbled show ?thesis by simp
qed

subsection \<open>C6: node identifiers are read as host and optional instance\<close>

text \<open>
  Claim C6. \<^verbatim>\<open>buildHashRing\<close> reads every identifier of the first view as
  \<^verbatim>\<open>host[:instance]\<close> and hands one node per listed identifier to \<^verbatim>\<open>AddNode\<close>, in the
  order of the list: the ring is the fold of \<^verbatim>\<open>AddNode\<close> over the nodes of the
  identifiers. An identifier without a colon gives the node of that host with the empty
  (default) instance; \<^verbatim>\<open>host:instance\<close> gives the node of that host and instance.
\<close>

theorem buildHashRing_reads_host_instance:
  "(rings \<noteq> [] \<longrightarrow>
      buildHashRing hf rings =
        Inr (fold (\<lambda>node ring. AddNode hf ring node)
               (map identifier_node (Nodes (rings ! 0))) NewHashRing)) \<and>
   (CHR '':'' \<notin> set s \<longrightarrow> identifier_node s = NewNode s '''') \<and>
   (CHR '':'' \<notin> set host \<and> CHR '':'' \<notin> set inst \<longrightarrow>
      identifier_node (host @ '':'' @ inst) = NewNode host inst)"
proof -
  have "buildHashRing hf rings =
          Inr (fold (\<lambda>node ring. AddNode hf ring node)
                 (map identifier_node (Nodes (rings ! 0))) NewHashRing)"
    if "rings \<noteq> []"
    using that
    by (cases rings) (simp_all add: buildHashRing_def buildHashRing_loop_fold fold_map comp_def)
  then show ?thesis
    using identifier_node_plain[of s] identifier_node_pair[of host inst] by simp
qed

theorem buildHashRing_reads_host_instance_witness:
  "buildHashRing example_hash [view_a] =
     Inr [(5, ''a'', ''''), (12, ''bb'', ''1''), (15, ''ccc'', ''''),
          (25, ''a'', ''''), (32, ''bb'', ''1''), (35, ''ccc'', '''')] \<and>
   identifier_node ''ccc'' = NewNode ''ccc'' '''' \<and>
   identifier_node ''bb:1'' = NewNode ''bb'' ''1''"
proof -
  note at_view_a =
    buildHashRing_reads_host_instance[of "[view_a]" example_hash "''ccc''" "''bb''" "''1''"]
  have ring: "fold (\<lambda>node ring. AddNode example_hash ring node)
                (map identifier_node (Nodes ([view_a] ! 0))) NewHashRing =
              [(5, ''a'', ''''), (12, ''bb'', ''1''), (15, ''ccc'', ''''),
               (25, ''a'', ''''), (32, ''bb'', ''1''), (35, ''ccc'', '''')]"
    by code_simp
  from at_view_a[unfolded ring] show ?thesis
    by simp
qed

subsection \<open>C7: where the metric keys come from\<close>

text \<open>
  Claim C7, as stated: the command reads the keys from standard input exactly when its
  sole argument is \<^verbatim>\<open>-\<close>, and otherwise treats all arguments as keys. The code tests
  the first argument only, as its help text says (``if the first argument is "-" we read
  the list from a JSON array on STDIN''). With the two arguments \<^verbatim>\<open>-\<close> and \<^verbatim>\<open>a.b\<close>
  the command reads standard input and prints the location of the key found there;
  neither argument is treated as a key.
\<close>

theorem locateCommand_sole_argument_counterexample:
  "[''-'', ''a.b''] \<noteq> [''-''] \<and>
   stdin_read (locateCommand example_world [''-'', ''a.b'']) \<and>
   stdout (locateCommand example_world [''-'', ''a.b'']) = ''x.y.z => a'' @ [CHR 0x0A]"
  by (simp add: locateCommand_def example_world_locate_json print_list_def)
    (simp add: example_world_def)

text \<open>
  Claim C7, amended: the command reads the metric list as a JSON array from standard
  input exactly when there is an argument and the first argument is \<^verbatim>\<open>-\<close>; further
  arguments are then ignored, and the outcome is decided by the bytes standard input
  delivers: if they do not decode, the process ends with the unmarshalling diagnostic;
  if they decode to a list of keys, the outcome is that of \<^verbatim>\<open>LocateSliceMetrics\<close> on
  that list, and the mapping printed has exactly the decoded keys as its keys. With a
  first argument other than \<^verbatim>\<open>-\<close>, standard input plays no part and all arguments
  are the metric keys: the outcome is that of \<^verbatim>\<open>LocateSliceMetrics\<close> on the arguments,
  and the mapping printed has exactly the arguments as its keys.
\<close>

theorem locateCommand_input_source:
  "(stdin_read (locateCommand w args) \<longleftrightarrow> args \<noteq> [] \<and> args ! 0 = ''-'') \<and>
   (args \<noteq> [] \<and> args ! 0 = ''-'' \<longrightarrow>
      locateCommand w args = locateCommand w [''-''] \<and>
      (\<forall>e. Unmarshal w (delivered (Stdin w)) = Inl e \<longrightarrow>
           locateCommand w args = die (Fatal (''Error unmarshalling JSON data: %s'' @ e)) True) \<and>
      (\<forall>metrics. Unmarshal w (delivered (Stdin w)) = Inr metrics \<longrightarrow>
           (\<forall>f. LocateSliceMetrics (hashing w) (GetRings w) metrics = Inl f \<longrightarrow>
                locateCommand w args = die f True) \<and>
           (\<forall>list. LocateSliceMetrics (hashing w) (GetRings w) metrics = Inr list \<longrightarrow>
                locateCommand w args = print_list w list True \<and> dom list = set metrics))) \<and>
   (args \<noteq> [] \<and> args ! 0 \<noteq> ''-'' \<longrightarrow>
      locateCommand (w\<lparr>Stdin := fd\<rparr>) args = locateCommand w args \<and>
      (\<forall>f. LocateSliceMetrics (hashing w) (GetRings w) args = Inl f \<longrightarrow>
           locateCommand w args = die f False) \<and>
      (\<forall>list. LocateSliceMetrics (hashing w) (GetRings w) args = Inr list \<longrightarrow>
           locateCommand w args = print_list w list False \<and> dom list = set args))"
proof -
  have read: "stdin_read (locateCommand w args) \<longleftrightarrow> args \<noteq> [] \<and> args ! 0 = ''-''"
    by (simp add: locateCommand_def die_def print_list_def split: sum.splits)
  have dash: "locateCommand w args = locateCommand w [''-'']" if "args \<noteq> [] \<and> args ! 0 = ''-''"
    using that by (simp add: locateCommand_def)
  have malformed:
    "\<forall>e. Unmarshal w (delivered (Stdin w)) = Inl e \<longrightarrow>
       locateCommand w args = die (Fatal (''Error unmarshalling JSON data: %s'' @ e)) True"
    if "args \<noteq> [] \<and> args ! 0 = ''-''"
    using that by (simp add: locateCommand_def LocateJSONMetrics_def ReadAll_def)
  have decoded:
    "\<forall>metrics. Unmarshal w (delivered (Stdin w)) = Inr metrics \<longrightarrow>
       (\<forall>f. LocateSliceMetrics (hashing w) (GetRings w) metrics = Inl f \<longrightarrow>
            locateCommand w args = die f True) \<and>
       (\<forall>list. LocateSliceMetrics (hashing w) (GetRings w) metrics = Inr list \<longrightarrow>
            locateCommand w args = print_list w list True \<and> dom list = set metrics)"
    if "args \<noteq> [] \<and> args ! 0 = ''-''"
    using that
    by (simp add: locateCommand_def LocateJSONMetrics_def ReadAll_def LocateSliceMetrics_dom)
  have keys: "locateCommand (w\<lparr>Stdin := fd\<rparr>) args = locateCommand w args \<and>
      (\<forall>f. LocateSliceMetrics (hashing w) (GetRings w) args = Inl f \<longrightarrow>
           locateCommand w args = die f False) \<and>
      (\<forall>list. LocateSliceMetrics (hashing w) (GetRings w) args = Inr list \<longrightarrow>
           locateCommand w args = print_list w list False \<and> dom list = set args)"
    if "args \<noteq> [] \<and> args ! 0 \<noteq> ''-''"
    using that
    by (auto simp: locateCommand_def print_list_def LocateSliceMetrics_dom split: sum.splits)
  show ?thesis
  proof (intro conjI impI)
    show "stdin_read (locateCommand w args) \<longleftrightarrow> args \<noteq> [] \<and> args ! 0 = ''-''"
      by (rule read)
  next
    assume a: "args \<noteq> [] \<and> args ! 0 = ''-''"
    show "locateCommand w args = locateCommand w [''-'']" by (rule dash[OF a])
    show "\<forall>e. Unmarshal w (delivered (Stdin w)) = Inl e \<longrightarrow>
       locateCommand w args = die (Fatal (''Error unmarshalling JSON data: %s'' @ e)) True"
      by (rule malformed[OF a])
    show "\<forall>metrics. Unmarshal w (delivered (Stdin w)) = Inr metrics \<longrightarrow>
       (\<forall>f. LocateSliceMetrics (hashing w) (GetRings w) metrics = Inl f \<longrightarrow>
            locateCommand w args = die f True) \<and>
       (\<forall>list. LocateSliceMetrics (hashing w) (GetRings w) metrics = Inr list \<longrightarrow>
            locateCommand w args = print_list w list True \<and> dom list = set metrics)"
      by (rule decoded[OF a])
  next
    assume a: "args \<noteq> [] \<and> args ! 0 \<noteq> ''-''"
    from keys[OF a] show "locateCommand (w\<lparr>Stdin := fd\<rparr>) args = locateCommand w args"
      by (rule conjunct1)
    from keys[OF a] show "\<forall>f. LocateSliceMetrics (hashing w) (GetRings w) args = Inl f \<longrightarrow>
           locateCommand w args = die f False"
      by (elim conjE)
    from keys[OF a] show "\<forall>list. LocateSliceMetrics (hashing w) (GetRings w) args = Inr list \<longrightarrow>
           locateCommand w args = print_list w list False \<and> dom list = set args"
      by (elim conjE)
  qed
qed

theorem locateCommand_input_source_witness:
  "stdin_read (locateCommand example_world [''-'', ''a.b'']) \<and>
   locateCommand example_world [''-'', ''a.b''] = locateCommand example_world [''-''] \<and>
   locateCommand example_world [''-'', ''a.b'']
     = \<lparr>completion = Returned 0, stdout = ''x.y.z => a'' @ [CHR 0x0A], stderr = [],
        stdin_read = True\<rparr> \<and>
   locateCommand (example_world\<lparr>Stdin := \<lparr>delivered = ''[]x'', read_error = None\<rparr>\<rparr>)
     [''-'', ''a.b'']
     = \<lparr>completion = Exited 1, stdout = [],
        stderr = ''Error unmarshalling JSON data: %s'' @ ''invalid character'' @ [CHR 0x0A],
        stdin_read = True\<rparr> \<and>
   \<not> stdin_read (locateCommand example_world [''x.y.z'', ''-'']) \<and>
   locateCommand (example_world\<lparr>Stdin := \<lparr>delivered = ''[]x'', read_error = None\<rparr>\<rparr>)
     [''x.y.z'', ''-''] = locateCommand example_world [''x.y.z'', ''-'']"
proof -
  let ?garbled = "example_world\<lparr>Stdin := \<lparr>delivered = ''[]x'', read_error = None\<rparr>\<rparr>"
  note dash = locateCommand_input_source[of example_world "[''-'', ''a.b'']"]
  note bad = locateCommand_input_source[of ?garbled "[''-'', ''a.b'']"]
  note keys = locateCommand_input_source[of example_world "[''x.y.z'', ''-'']"
                "\<lparr>delivered = ''[]x'', read_error = None\<rparr>"]
  have first: "[''-'', ''a.b''] \<noteq> [] \<and> [''-'', ''a.b''] ! 0 = ''-''"
    by simp
  have other: "[''x.y.z'', ''-''] \<noteq> [] \<and> [''x.y.z'', ''-''] ! 0 \<noteq> ''-''"
    by simp
  have decodes: "Unmarshal example_world (delivered (Stdin example_world)) = Inr [''x.y.z'']"
    by (simp add: example_world_def)
  have fails: "Unmarshal ?garbled (delivered (Stdin ?garbled)) = Inl ''invalid character''"
    by (simp add: example_world_def example_json_def)
  have printed: "print_list example_world [''x.y.z'' \<mapsto> ''a''] True
     = \<lparr>completion = Returned 0, stdout = ''x.y.z => a'' @ [CHR 0x0A], stderr = [],
        stdin_read = True\<rparr>"
    by (simp add: print_list_def example_world_def)
  from dash[THEN conjunct1] have r1: "stdin_read (locateCommand example_world [''-'', ''a.b''])"
    by simp
  note dash_branch = dash[THEN conjunct2, THEN conjunct1, rule_format, OF first]
  from dash_branch
  have r2: "locateCommand example_world [''-'', ''a.b''] = locateCommand example_world [''-'']"
    by (rule conjunct1)
  from dash_branch[THEN conjunct2, THEN conjunct2, rule_format, OF decodes,
      THEN conjunct2, rule_format, OF example_locate_one]
  have "locateCommand example_world [''-'', ''a.b'']
          = print_list example_world [''x.y.z'' \<mapsto> ''a''] True"
    by (rule conjunct1)
  then have r3: "locateCommand example_world [''-'', ''a.b'']
     = \<lparr>completion = Returned 0, stdout = ''x.y.z => a'' @ [CHR 0x0A], stderr = [],
        stdin_read = True\<rparr>"
    by (simp only: printed)
  from bad[THEN conjunct2, THEN conjunct1, rule_format, OF first,
      THEN conjunct2, THEN conjunct1, rule_format, OF fails]
  have r4: "locateCommand ?garbled [''-'', ''a.b'']
     = \<lparr>completion = Exited 1, stdout = [],
        stderr = ''Error unmarshalling JSON data: %s'' @ ''invalid character'' @ [CHR 0x0A],
        stdin_read = True\<rparr>"
    by (simp add: die_def)
  from keys[THEN conjunct1]
  have r5: "\<not> stdin_read (locateCommand example_world [''x.y.z'', ''-''])"
    by simp
  from keys[THEN conjunct2, THEN conjunct2, rule_format, OF other]
  have r6: "locateCommand ?garbled [''x.y.z'', ''-''] = locateCommand example_world [''x.y.z'', ''-'']"
    by (rule conjunct1)
  from r1 r2 r3 r4 r5 r6 show ?thesis by (intro conjI)
qed

subsection \<open>C8: duplicate keys collapse\<close>

text \<open>
  Claim C8. When \<^verbatim>\<open>LocateSliceMetrics\<close> returns a mapping, the mapping has exactly one
  entry for each distinct key of the input: its domain is the set of the keys, and it
  has as many entries as the input without its duplicates. The input without its
  duplicates gives the same mapping, resolving a key of the input once more changes
  nothing, and the entry of a key is the host of the node \<^verbatim>\<open>GetNode\<close> returns for it.
\<close>

theorem LocateSliceMetrics_duplicates_collapse:
  assumes "LocateSliceMetrics hf rings metrics = Inr m"
  shows "dom m = set metrics \<and>
         card (dom m) = length (remdups metrics) \<and>
         LocateSliceMetrics hf rings (remdups metrics) = Inr m \<and>
         (\<forall>key\<in>set metrics. LocateSliceMetrics hf rings (metrics @ [key]) = Inr m) \<and>
         (\<exists>hr. buildHashRing hf rings = Inr hr \<and>
            (\<forall>key\<in>set metrics. \<exists>node. GetNode hf hr key = Inr node \<and> m key = Some (Server node)))"
proof -
  from LocateSliceMetrics_Inr[OF assms] obtain hr where
    h: "IsHealthy rings" and b: "buildHashRing hf rings = Inr hr" and
    ne: "metrics \<noteq> [] \<longrightarrow> hr \<noteq> []" and
    m: "m = (\<lambda>k. if k \<in> set metrics
                 then (case GetNode hf hr k of Inr node \<Rightarrow> Some (Server node) | Inl e \<Rightarrow> None)
                 else None)"
    by blast
  have node: "\<exists>node. GetNode hf hr key = Inr node \<and> m key = Some (Server node)"
    if "key \<in> set metrics" for key
  proof -
    from that ne have "hr \<noteq> []" by auto
    from GetNode_member[OF this, of hf key] obtain node where "GetNode hf hr key = Inr node"
      by blast
    with that show ?thesis by (simp add: m)
  qed
  have dom: "dom m = set metrics"
  proof
    show "dom m \<subseteq> set metrics" by (auto simp: m split: if_splits)
    show "set metrics \<subseteq> dom m" using node by auto
  qed
  have card: "card (dom m) = length (remdups metrics)"
    by (simp add: dom card_set)
  have same: "LocateSliceMetrics hf rings metrics' = Inr m"
    if "set metrics' = set metrics" for metrics'
  proof -
    have "metrics' = [] \<longleftrightarrow> metrics = []" using that by auto
    then show ?thesis
      using LocateSliceMetrics_healthy[OF h b, of metrics'] ne that
      by (simp add: m)
  qed
  have "LocateSliceMetrics hf rings (remdups metrics) = Inr m"
    by (rule same) simp
  moreover have "\<forall>key\<in>set metrics. LocateSliceMetrics hf rings (metrics @ [key]) = Inr m"
    by (auto intro: same)
  ultimately show ?thesis using dom card b node by blast
qed

theorem LocateSliceMetrics_duplicates_collapse_witness:
  "LocateSliceMetrics example_hash [view_a, view_b, view_c] [''x.y.z'', ''app.cpu'', ''x.y.z'']
     = Inr [''x.y.z'' \<mapsto> ''a'', ''app.cpu'' \<mapsto> ''bb''] \<and>
   dom [''x.y.z'' \<mapsto> ''a'', ''app.cpu'' \<mapsto> ''bb''] = set [''x.y.z'', ''app.cpu'', ''x.y.z''] \<and>
   card (dom [''x.y.z'' \<mapsto> ''a'', ''app.cpu'' \<mapsto> ''bb'']) = 2 \<and>
   LocateSliceMetrics example_hash [view_a, view_b, view_c] [''app.cpu'', ''x.y.z'']
     = Inr [''x.y.z'' \<mapsto> ''a'', ''app.cpu'' \<mapsto> ''bb'']"
proof -
  have ring: "buildHashRing example_hash [view_a, view_b, view_c] =
    Inr [(5, ''a'', ''''), (12, ''bb'', ''1''), (15, ''ccc'', ''''),
         (25, ''a'', ''''), (32, ''bb'', ''1''), (35, ''ccc'', '''')]"
    by (rule example_ring)
  have upd: "[''x.y.z'' \<mapsto> ''a'', ''app.cpu'' \<mapsto> ''bb'', ''x.y.z'' \<mapsto> ''a''] =
             [''x.y.z'' \<mapsto> ''a'', ''app.cpu'' \<mapsto> ''bb'']"
    by (rule ext) simp
  have run: "LocateSliceMetrics example_hash [view_a, view_b, view_c]
               [''x.y.z'', ''app.cpu'', ''x.y.z'']
             = Inr [''x.y.z'' \<mapsto> ''a'', ''app.cpu'' \<mapsto> ''bb'']"
    by (simp only: LocateSliceMetrics_def example_healthy ring example_locate upd
        not_True_eq_False if_False sum.case)
  have dedup: "remdups [''x.y.z'', ''app.cpu'', ''x.y.z''] = [''app.cpu'', ''x.y.z'']"
    by simp
  note collapse = LocateSliceMetrics_duplicates_collapse[OF run, unfolded dedup]
  from collapse have "dom [''x.y.z'' \<mapsto> ''a'', ''app.cpu'' \<mapsto> ''bb'']
                        = set [''x.y.z'', ''app.cpu'', ''x.y.z'']"
    by (rule conjunct1)
  moreover from collapse have "card (dom [''x.y.z'' \<mapsto> ''a'', ''app.cpu'' \<mapsto> ''bb'']) = 2"
    by simp
  moreover from collapse
  have "LocateSliceMetrics example_hash [view_a, view_b, view_c] [''app.cpu'', ''x.y.z'']
          = Inr [''x.y.z'' \<mapsto> ''a'', ''app.cpu'' \<mapsto> ''bb'']"
    by (elim conjE)
  ultimately show ?thesis using run by (intro conjI)
qed

subsection \<open>C9: only the host of a node is kept\<close>

text \<open>
  Claim C9. The value stored for a key is the \<^verbatim>\<open>Server\<close> field of the node that
  \<^verbatim>\<open>GetNode\<close> returns; the instance is dropped. Keys whose nodes have the same host
  get the same value, whatever the instances of the nodes, and every value is the host
  part (the text before the first colon) of an identifier of the first view.
\<close>

theorem LocateSliceMetrics_keeps_host_only:
  assumes "LocateSliceMetrics hf rings metrics = Inr m"
  shows "\<exists>hr. buildHashRing hf rings = Inr hr \<and>
           (\<forall>key\<in>set metrics. \<exists>node. GetNode hf hr key = Inr node \<and> m key = Some (Server node)) \<and>
           (\<forall>k1\<in>set metrics. \<forall>k2\<in>set metrics. \<forall>n1 n2.
               GetNode hf hr k1 = Inr n1 \<and> GetNode hf hr k2 = Inr n2 \<and> Server n1 = Server n2
               \<longrightarrow> m k1 = m k2) \<and>
           (\<forall>key\<in>set metrics. \<exists>identifier\<in>set (Nodes (rings ! 0)).
               m key = Some (takeWhile (\<lambda>c. c \<noteq> CHR '':'') identifier))"
proof -
  from LocateSliceMetrics_Inr[OF assms] obtain hr where
    h: "IsHealthy rings" and b: "buildHashRing hf rings = Inr hr" and
    ne: "metrics \<noteq> [] \<longrightarrow> hr \<noteq> []" and
    m: "m = (\<lambda>k. if k \<in> set metrics
                 then (case GetNode hf hr k of Inr node \<Rightarrow> Some (Server node) | Inl e \<Rightarrow> None)
                 else None)"
    by blast
  have hr: "hr = buildHashRing_loop hf (Nodes (rings ! 0)) NewHashRing"
    using b buildHashRing_healthy[OF h, of hf] by simp
  have both: "(\<exists>node. GetNode hf hr key = Inr node \<and> m key = Some (Server node)) \<and>
              (\<exists>identifier\<in>set (Nodes (rings ! 0)).
                 m key = Some (takeWhile (\<lambda>c. c \<noteq> CHR '':'') identifier))"
    if "key \<in> set metrics" for key
  proof -
    from that ne have "hr \<noteq> []" by auto
    from GetNode_member[OF this, of hf key] obtain p server inst where
      e: "(p, server, inst) \<in> set hr" and g: "GetNode hf hr key = Inr (NewNode server inst)"
      by blast
    from e obtain listed where "listed \<in> set (Nodes (rings ! 0))"
      and "(p, server, inst) \<in> entries hf (identifier_node listed)"
      by (auto simp: hr set_loop NewHashRing_def)
    then have listed: "listed \<in> set (Nodes (rings ! 0))"
      and server: "server = takeWhile (\<lambda>c. c \<noteq> CHR '':'') listed"
      by (auto simp: entries_def identifier_node_def NewNode_def)
    from g that have stored: "m key = Some server"
      by (simp add: m NewNode_def)
    from g stored have "\<exists>node. GetNode hf hr key = Inr node \<and> m key = Some (Server node)"
      by (simp add: NewNode_def)
    moreover from listed server stored
    have "\<exists>identifier\<in>set (Nodes (rings ! 0)).
            m key = Some (takeWhile (\<lambda>c. c \<noteq> CHR '':'') identifier)"
      by (intro bexI[of _ listed]) simp_all
    ultimately show ?thesis by (rule conjI)
  qed
  have resolved:
    "\<forall>key\<in>set metrics. \<exists>node. GetNode hf hr key = Inr node \<and> m key = Some (Server node)"
  proof
    fix key assume "key \<in> set metrics"
    from both[OF this] show "\<exists>node. GetNode hf hr key = Inr node \<and> m key = Some (Server node)"
      by (rule conjunct1)
  qed
  have host: "\<forall>key\<in>set metrics. \<exists>identifier\<in>set (Nodes (rings ! 0)).
               m key = Some (takeWhile (\<lambda>c. c \<noteq> CHR '':'') identifier)"
  proof
    fix key assume "key \<in> set metrics"
    from both[OF this] show "\<exists>identifier\<in>set (Nodes (rings ! 0)).
               m key = Some (takeWhile (\<lambda>c. c \<noteq> CHR '':'') identifier)"
      by (rule conjunct2)
  qed
  have alike: "\<forall>k1\<in>set metrics. \<forall>k2\<in>set metrics. \<forall>n1 n2.
               GetNode hf hr k1 = Inr n1 \<and> GetNode hf hr k2 = Inr n2 \<and> Server n1 = Server n2
               \<longrightarrow> m k1 = m k2"
    by (simp add: m)
  from b resolved alike host show ?thesis
    by (intro exI[of _ hr] conjI)
qed

theorem LocateSliceMetrics_keeps_host_only_witness:
  "GetNode example_hash
     [(5, ''a'', ''''), (12, ''bb'', ''1''), (14, ''bb'', ''22''),
      (25, ''a'', ''''), (32, ''bb'', ''1''), (34, ''bb'', ''22'')] ''x.y.z.w''
     = Inr \<lparr>Server = ''bb'', Instance = ''1''\<rparr> \<and>
   GetNode example_hash
     [(5, ''a'', ''''), (12, ''bb'', ''1''), (14, ''bb'', ''22''),
      (25, ''a'', ''''), (32, ''bb'', ''1''), (34, ''bb'', ''22'')] ''app.host1.cpu''
     = Inr \<lparr>Server = ''bb'', Instance = ''22''\<rparr> \<and>
   LocateSliceMetrics example_hash [view_two_instances] [''x.y.z.w'', ''app.host1.cpu'']
     = Inr [''x.y.z.w'' \<mapsto> ''bb'', ''app.host1.cpu'' \<mapsto> ''bb''] \<and>
   [''x.y.z.w'' \<mapsto> ''bb'', ''app.host1.cpu'' \<mapsto> ''bb''] ''x.y.z.w''
     = [''x.y.z.w'' \<mapsto> ''bb'', ''app.host1.cpu'' \<mapsto> ''bb''] ''app.host1.cpu''"
proof -
  have healthy: "IsHealthy [view_two_instances]"
    by (simp add: IsHealthy_def)
  have ring: "buildHashRing example_hash [view_two_instances] =
    Inr [(5, ''a'', ''''), (12, ''bb'', ''1''), (14, ''bb'', ''22''),
         (25, ''a'', ''''), (32, ''bb'', ''1''), (34, ''bb'', ''22'')]"
    by (rule example_ring_two_instances)
  have run: "LocateSliceMetrics example_hash [view_two_instances] [''x.y.z.w'', ''app.host1.cpu'']
             = Inr [''x.y.z.w'' \<mapsto> ''bb'', ''app.host1.cpu'' \<mapsto> ''bb'']"
    by (simp only: LocateSliceMetrics_def healthy ring example_locate_two_instances
        not_True_eq_False if_False sum.case)
  have g1: "GetNode example_hash
     [(5, ''a'', ''''), (12, ''bb'', ''1''), (14, ''bb'', ''22''),
      (25, ''a'', ''''), (32, ''bb'', ''1''), (34, ''bb'', ''22'')] ''x.y.z.w''
     = Inr \<lparr>Server = ''bb'', Instance = ''1''\<rparr>"
    by (simp add: GetNode_def example_hash_def NewNode_def)
  have g2: "GetNode example_hash
     [(5, ''a'', ''''), (12, ''bb'', ''1''), (14, ''bb'', ''22''),
      (25, ''a'', ''''), (32, ''bb'', ''1''), (34, ''bb'', ''22'')] ''app.host1.cpu''
     = Inr \<lparr>Server = ''bb'', Instance = ''22''\<rparr>"
    by (simp add: GetNode_def example_hash_def NewNode_def)
  from LocateSliceMetrics_keeps_host_only[OF run] run g1 g2
  show ?thesis by simp
qed

subsection \<open>C10: the error of reading the input is never looked at\<close>

text \<open>
  Claim C10. \<^verbatim>\<open>LocateJSONMetrics\<close> depends on the bytes that the read delivered only,
  not on whether the read ended with an error. It ends the process with the
  unmarshalling diagnostic exactly when decoding those bytes fails; when they decode,
  it goes on as \<^verbatim>\<open>LocateSliceMetrics\<close> on the decoded keys, read error or not.
\<close>

theorem LocateJSONMetrics_ignores_read_error:
  "(delivered fd = delivered fd' \<longrightarrow>
      LocateJSONMetrics hf um rings fd = LocateJSONMetrics hf um rings fd') \<and>
   (\<forall>e. um (delivered fd) = Inl e \<longrightarrow>
      LocateJSONMetrics hf um rings fd = Inl (Fatal (''Error unmarshalling JSON data: %s'' @ e))) \<and>
   (\<forall>metrics. um (delivered fd) = Inr metrics \<longrightarrow>
      LocateJSONMetrics hf um rings fd = LocateSliceMetrics hf rings metrics) \<and>
   ((\<exists>e. LocateJSONMetrics hf um rings fd = Inl (Fatal (''Error unmarshalling JSON data: %s'' @ e)))
      \<longleftrightarrow> (\<exists>e. um (delivered fd) = Inl e))"
proof -
  have other_failure:
    "LocateSliceMetrics hf rings metrics \<noteq> Inl (Fatal (CHR ''E'' # rest))"
    for metrics rest
  proof (cases "IsHealthy rings")
    case False
    then show ?thesis
      by (simp add: LocateSliceMetrics_unhealthy ClusterInconsistentError_def)
  next
    case True
    from LocateSliceMetrics_healthy[OF True buildHashRing_healthy[OF True], of hf metrics]
    show ?thesis by (simp split: if_splits)
  qed
  show ?thesis
    by (cases "um (delivered fd)")
      (simp_all add: LocateJSONMetrics_def ReadAll_def other_failure)
qed

theorem LocateJSONMetrics_ignores_read_error_witness:
  "LocateJSONMetrics example_hash (Unmarshal example_world) [view_a, view_b, view_c]
     \<lparr>delivered = example_json, read_error = Some ''unexpected EOF''\<rparr>
   = LocateJSONMetrics example_hash (Unmarshal example_world) [view_a, view_b, view_c]
       \<lparr>delivered = example_json, read_error = None\<rparr> \<and>
   LocateJSONMetrics example_hash (Unmarshal example_world) [view_a, view_b, view_c]
     \<lparr>delivered = example_json, read_error = Some ''unexpected EOF''\<rparr>
   = LocateSliceMetrics example_hash [view_a, view_b, view_c] [''x.y.z''] \<and>
   LocateJSONMetrics example_hash (Unmarshal example_world) [view_a, view_b, view_c]
     \<lparr>delivered = ''[]x'', read_error = None\<rparr>
   = Inl (Fatal (''Error unmarshalling JSON data: %s'' @ ''invalid character''))"
proof -
  let ?broken = "\<lparr>delivered = example_json, read_error = Some ''unexpected EOF''\<rparr>"
  let ?whole = "\<lparr>delivered = example_json, read_error = None\<rparr>"
  let ?malformed = "\<lparr>delivered = ''[]x'', read_error = None\<rparr>"
  have ok: "Unmarshal example_world (delivered ?broken) = Inr [''x.y.z'']"
    by (simp add: example_world_def)
  have bad: "Unmarshal example_world (delivered ?malformed) = Inl ''invalid character''"
    by (simp add: example_world_def example_json_def)
  have same: "delivered ?broken = delivered ?whole"
    by simp
  note at_broken = LocateJSONMetrics_ignores_read_error
         [of ?broken ?whole example_hash "Unmarshal example_world" "[view_a, view_b, view_c]"]
  note at_malformed = LocateJSONMetrics_ignores_read_error
         [of ?malformed ?malformed example_hash "Unmarshal example_world" "[view_a, view_b, view_c]"]
  from at_broken same
  have "LocateJSONMetrics example_hash (Unmarshal example_world) [view_a, view_b, view_c] ?broken
        = LocateJSONMetrics example_hash (Unmarshal example_world) [view_a, view_b, view_c] ?whole"
    by blast
  moreover from at_broken ok
  have "LocateJSONMetrics example_hash (Unmarshal example_world) [view_a, view_b, view_c] ?broken
        = LocateSliceMetrics example_hash [view_a, view_b, view_c] [''x.y.z'']"
    by blast
  moreover from at_malformed bad
  have "LocateJSONMetrics example_hash (Unmarshal example_world) [view_a, view_b, view_c] ?malformed
        = Inl (Fatal (''Error unmarshalling JSON data: %s'' @ ''invalid character''))"
    by blast
  ultimately show ?thesis by (intro conjI)
qed

end
